theory Spec2Isabelle
  imports Complex_Main "HOL-Library.Sublist"
begin

section \<open>The untyped document tree\<close>

text \<open>
  \<^verbatim>\<open>json.Unmarshal\<close> into \<^verbatim>\<open>map[string]interface{}\<close> yields a tree of
  \<^verbatim>\<open>nil\<close>, \<^verbatim>\<open>bool\<close>, \<^verbatim>\<open>float64\<close>, \<^verbatim>\<open>string\<close>, \<^verbatim>\<open>[]interface{}\<close> and
  \<^verbatim>\<open>map[string]interface{}\<close>. A finite \<^verbatim>\<open>float64\<close> is a rational number. A Go map is
  an association list read through \<open>map_of\<close>: only the first binding of a key is visible.
\<close>

datatype json =
    JNull
  | JBool bool
  | JNum rat
  | JStr string
  | JArr "json list"
  | JObj "(string \<times> json) list"

type_synonym object = "(string \<times> json) list"

text \<open>The two-valued type assertions \<^verbatim>\<open>v, ok := x.(T)\<close>: \<open>None\<close> is \<^verbatim>\<open>ok == false\<close>.\<close>

fun asMap :: "json \<Rightarrow> object option" where
  "asMap (JObj m) = Some m"
| "asMap _ = None"

fun asArray :: "json \<Rightarrow> json list option" where
  "asArray (JArr xs) = Some xs"
| "asArray _ = None"

fun asString :: "json \<Rightarrow> string option" where
  "asString (JStr s) = Some s"
| "asString _ = None"

fun asBool :: "json \<Rightarrow> bool option" where
  "asBool (JBool b) = Some b"
| "asBool _ = None"

text \<open>\<^verbatim>\<open>m[k]\<close> in its one-valued form: a missing key reads as \<^verbatim>\<open>nil\<close>.\<close>

definition index :: "object \<Rightarrow> string \<Rightarrow> json" where
  "index m k = (case map_of m k of None \<Rightarrow> JNull | Some v \<Rightarrow> v)"

text \<open>
  \<^verbatim>\<open>s, _ := m[k].(string)\<close> and \<^verbatim>\<open>b, ok := m[k].(bool); if !ok { b = false }\<close>: a failed
  assertion leaves the zero value.
\<close>

definition strField :: "object \<Rightarrow> string \<Rightarrow> string" where
  "strField m k = (case asString (index m k) of Some s \<Rightarrow> s | None \<Rightarrow> [])"

definition boolField :: "object \<Rightarrow> string \<Rightarrow> bool" where
  "boolField m k = (case asBool (index m k) of Some b \<Rightarrow> b | None \<Rightarrow> False)"

section \<open>The functions of package \<^verbatim>\<open>strings\<close> that the handlers call\<close>

text \<open>
  Go strings are byte sequences, as \<open>string\<close> is. \<^verbatim>\<open>strings.ToLower\<close> belongs to Go's
  library, with the case tables of Unicode behind it: the handlers that call it take it
  as their first parameter \<open>ToLower\<close>, and a property that needs a fact about it states
  that fact. \<open>asciiToLower\<close> is what \<^verbatim>\<open>strings.ToLower\<close> does on a string of ASCII bytes
  (an ASCII capital gets \<^verbatim>\<open>'a' - 'A'\<close> added, which sets the bit of value 32, clear in
  every capital; every other byte stays). It takes the place of the parameter in the
  examples, whose strings are all ASCII.
\<close>

definition isUpperByte :: "char \<Rightarrow> bool" where
  "isUpperByte c = (c \<in> set ''ABCDEFGHIJKLMNOPQRSTUVWXYZ'')"

fun toLowerByte :: "char \<Rightarrow> char" where
  "toLowerByte (Char b0 b1 b2 b3 b4 b5 b6 b7) =
     (if isUpperByte (Char b0 b1 b2 b3 b4 b5 b6 b7) then Char b0 b1 b2 b3 b4 True b6 b7
      else Char b0 b1 b2 b3 b4 b5 b6 b7)"

definition asciiToLower :: "string \<Rightarrow> string" where
  "asciiToLower s = map toLowerByte s"

definition HasPrefix :: "string \<Rightarrow> string \<Rightarrow> bool" where
  "HasPrefix s pre = (length pre \<le> length s \<and> take (length pre) s = pre)"

definition TrimPrefix :: "string \<Rightarrow> string \<Rightarrow> string" where
  "TrimPrefix s pre = (if HasPrefix s pre then drop (length pre) s else s)"

fun Contains :: "string \<Rightarrow> string \<Rightarrow> bool" where
  "Contains [] substr = (substr = [])"
| "Contains (c # cs) substr = (HasPrefix (c # cs) substr \<or> Contains cs substr)"

text \<open>
  \<^verbatim>\<open>strings.ReplaceAll\<close> for a non-empty \<open>old\<close> (the only way it is called): the
  leftmost occurrence is replaced and the scan resumes behind it.
\<close>

fun ReplaceAll :: "string \<Rightarrow> string \<Rightarrow> string \<Rightarrow> string" where
  "ReplaceAll [] old new = []"
| "ReplaceAll (c # cs) old new =
     (if old \<noteq> [] \<and> HasPrefix (c # cs) old
      then new @ ReplaceAll (drop (length old) (c # cs)) old new
      else c # ReplaceAll cs old new)"

section \<open>Requests and responses\<close>

text \<open>
  \<^verbatim>\<open>r.URL.Query()\<close> is the list of the query's key/value pairs in their order;
  \<^verbatim>\<open>Get\<close> returns the first value of a key, or the empty string.
\<close>

type_synonym url_values = "(string \<times> string) list"

definition Get :: "url_values \<Rightarrow> string \<Rightarrow> string" where
  "Get q k = (case map_of q k of None \<Rightarrow> [] | Some v \<Rightarrow> v)"

text \<open>
  What a handler leaves behind: a value written by \<^verbatim>\<open>json.NewEncoder(w).Encode\<close> (status
  200), a body and a status code written by \<^verbatim>\<open>http.Error\<close>, or a run-time panic before
  anything was written.
\<close>

datatype response =
    Encode json
  | HttpError string nat
  | Panic

definition StatusBadRequest :: nat where "StatusBadRequest = 400"
definition StatusNotFound :: nat where "StatusNotFound = 404"
definition StatusInternalServerError :: nat where "StatusInternalServerError = 500"

section \<open>\<^verbatim>\<open>decodePath\<close>\<close>

text \<open>The Go result pair \<^verbatim>\<open>(string, error)\<close>; \<open>None\<close> is the \<^verbatim>\<open>nil\<close> error.\<close>

definition decodePath :: "string \<Rightarrow> string \<times> string option" where
  "decodePath path = (let decoded = ReplaceAll path ''%2F'' ''/'' in (decoded, None))"

section \<open>\<^verbatim>\<open>getKeysHandler\<close>\<close>

text \<open>
  The document \<^verbatim>\<open>neuvectorData\<close> is the root object; \<^verbatim>\<open>nil\<close> and the empty map are both
  the empty list. Ranging over a Go map visits every key once, in an order that is not
  specified and differs from one call to the next: the order of one call is the input
  \<open>rangeKeys\<close> of the handler, a list for which \<open>isRangeOrder\<close> holds.
\<close>

definition isRangeOrder :: "object \<Rightarrow> string list \<Rightarrow> bool" where
  "isRangeOrder m ks = (distinct ks \<and> set ks = fst ` set m)"

fun keysLoop :: "(string \<Rightarrow> string) \<Rightarrow> string \<Rightarrow> string list \<Rightarrow> string list \<Rightarrow> string list" where
  "keysLoop ToLower lowerQuery filteredKeys [] = filteredKeys"
| "keysLoop ToLower lowerQuery filteredKeys (key # rest) =
     (if Contains (ToLower key) lowerQuery
      then keysLoop ToLower lowerQuery (filteredKeys @ [key]) rest
      else keysLoop ToLower lowerQuery filteredKeys rest)"

definition notLoadedBody :: string where
  \<open>notLoadedBody = ''{"error": "Data not loaded."}''\<close>

definition getKeysHandler ::
    "(string \<Rightarrow> string) \<Rightarrow> object \<Rightarrow> string list \<Rightarrow> url_values \<Rightarrow> response" where
  "getKeysHandler ToLower neuvectorData rangeKeys urlQuery =
     (if neuvectorData = [] then HttpError notLoadedBody StatusInternalServerError
      else
        let allKeys = rangeKeys;
            query = Get urlQuery ''q'';
            allKeys' = (if query \<noteq> [] then keysLoop ToLower (ToLower query) [] allKeys else allKeys)
        in Encode (JArr (map JStr allKeys')))"

section \<open>\<^verbatim>\<open>getDataHandler\<close>\<close>

subsection \<open>The group list\<close>

text \<open>
  The body of the loop over \<^verbatim>\<open>groups\<close> up to the \<^verbatim>\<open>append\<close>: \<open>True\<close> where one of the
  \<^verbatim>\<open>continue\<close> statements is reached. \<open>filterPolicyMode\<close> arrives as an image of \<open>ToLower\<close>.
\<close>

definition groupSkipped :: "(string \<Rightarrow> string) \<Rightarrow> string \<Rightarrow> string \<Rightarrow> string \<Rightarrow> object \<Rightarrow> bool" where
  "groupSkipped ToLower filterZeroDriftStr filterDomain filterPolicyMode grp =
     (let groupName = strField grp ''name'' in
      if HasPrefix groupName ''_'' then True
      else if filterZeroDriftStr \<noteq> [] \<and>
              (let zeroDriftEnabled = boolField grp ''zero_drift_enabled'' in
                 (filterZeroDriftStr = ''true'' \<and> \<not> zeroDriftEnabled) \<or>
                 (filterZeroDriftStr = ''false'' \<and> zeroDriftEnabled)) then True
      else if filterDomain \<noteq> [] \<and>
              \<not> Contains (ToLower (strField grp ''domain'')) (ToLower filterDomain) then True
      else if filterPolicyMode \<noteq> [] \<and>
              ToLower (strField grp ''policy_mode'') \<noteq> filterPolicyMode then True
      else False)"

text \<open>
  The loop itself. \<^verbatim>\<open>group := groupIface.(map[string]interface{})\<close> is the one-valued
  assertion, which panics on anything but a map: \<open>None\<close>.
\<close>

fun groupsLoop :: "(string \<Rightarrow> string) \<Rightarrow> string \<Rightarrow> string \<Rightarrow> string \<Rightarrow> json list \<Rightarrow> json list \<Rightarrow> json list option" where
  "groupsLoop ToLower filterZeroDriftStr filterDomain filterPolicyMode filteredGroups [] = Some filteredGroups"
| "groupsLoop ToLower filterZeroDriftStr filterDomain filterPolicyMode filteredGroups (groupIface # rest) =
     (case asMap groupIface of
        None \<Rightarrow> None
      | Some grp \<Rightarrow>
          if groupSkipped ToLower filterZeroDriftStr filterDomain filterPolicyMode grp
          then groupsLoop ToLower filterZeroDriftStr filterDomain filterPolicyMode filteredGroups rest
          else groupsLoop ToLower filterZeroDriftStr filterDomain filterPolicyMode
                 (filteredGroups @ [JObj grp]) rest)"

text \<open>
  The branch \<^verbatim>\<open>key == "/v1/group"\<close>. \<open>None\<close>: one of the three \<^verbatim>\<open>else\<close> branches was
  taken, which only write to the log and leave the \<^verbatim>\<open>if\<close> chain.
\<close>

definition groupBranch :: "(string \<Rightarrow> string) \<Rightarrow> json \<Rightarrow> url_values \<Rightarrow> response option" where
  "groupBranch ToLower val urlQuery =
     (case asMap val of
        None \<Rightarrow> None
      | Some valMap \<Rightarrow>
          (case map_of valMap ''groups'' of
             None \<Rightarrow> None
           | Some groupsIface \<Rightarrow>
               (case asArray groupsIface of
                  None \<Rightarrow> None
                | Some groups \<Rightarrow>
                    let filterZeroDriftStr = Get urlQuery ''zero_drift'';
                        filterDomain = Get urlQuery ''domain'';
                        filterPolicyMode = ToLower (Get urlQuery ''policy_mode'')
                    in Some (case groupsLoop ToLower filterZeroDriftStr filterDomain filterPolicyMode [] groups of
                               None \<Rightarrow> Panic
                             | Some filteredGroups \<Rightarrow> Encode (JArr filteredGroups)))))"

subsection \<open>The platform scan summary\<close>

definition versionToUse :: "(string \<Rightarrow> string) \<Rightarrow> object \<Rightarrow> string" where
  "versionToUse ToLower platformMap =
     (case asString (index platformMap ''platform'') of
        Some platformName \<Rightarrow>
          if Contains (ToLower platformName) ''openshift''
          then (case asString (index platformMap ''openshift_version'') of Some ov \<Rightarrow> ov | None \<Rightarrow> [])
          else (case asString (index platformMap ''kube_version'') of Some kv \<Rightarrow> kv | None \<Rightarrow> [])
      | None \<Rightarrow>
          (case asString (index platformMap ''version'') of Some v \<Rightarrow> v | None \<Rightarrow> []))"

definition newPlatform :: "(string \<Rightarrow> string) \<Rightarrow> object \<Rightarrow> object" where
  "newPlatform ToLower platformMap =
     [(''platform'', index platformMap ''platform''),
      (''status'', index platformMap ''status''),
      (''version'', JStr (versionToUse ToLower platformMap))] @
     (case map_of platformMap ''scan_summary'' of
        None \<Rightarrow> []
      | Some scanSummaryIface \<Rightarrow>
          (case asMap scanSummaryIface of
             None \<Rightarrow> []
           | Some scanSummaryMap \<Rightarrow>
               [(''high'', index scanSummaryMap ''high''),
                (''medium'', index scanSummaryMap ''medium''),
                (''scanned_at'', index scanSummaryMap ''scanned_at'')]))"

fun platformsLoop :: "(string \<Rightarrow> string) \<Rightarrow> object list \<Rightarrow> json list \<Rightarrow> object list" where
  "platformsLoop ToLower formattedPlatforms [] = formattedPlatforms"
| "platformsLoop ToLower formattedPlatforms (platformIface # rest) =
     (case asMap platformIface of
        Some platformMap \<Rightarrow> platformsLoop ToLower (formattedPlatforms @ [newPlatform ToLower platformMap]) rest
      | None \<Rightarrow> platformsLoop ToLower formattedPlatforms rest)"

definition platformBody :: string where
  \<open>platformBody = ''{"error": "Failed to process platform data."}''\<close>

definition platformBranch :: "(string \<Rightarrow> string) \<Rightarrow> json \<Rightarrow> response" where
  "platformBranch ToLower val =
     (case asMap val of
        None \<Rightarrow> HttpError platformBody StatusInternalServerError
      | Some valMap \<Rightarrow>
          (case map_of valMap ''platforms'' of
             None \<Rightarrow> HttpError platformBody StatusInternalServerError
           | Some platformsIface \<Rightarrow>
               (case asArray platformsIface of
                  None \<Rightarrow> HttpError platformBody StatusInternalServerError
                | Some platforms \<Rightarrow> Encode (JArr (map JObj (platformsLoop ToLower [] platforms))))))"

subsection \<open>The domain list\<close>

definition newDomain :: "object \<Rightarrow> object" where
  "newDomain domainMap =
     [(''name'', index domainMap ''name''),
      (''workloads'', index domainMap ''workloads''),
      (''running_workloads'', index domainMap ''running_workloads''),
      (''running_pods'', index domainMap ''running_pods''),
      (''services'', index domainMap ''services'')]"

definition domainSkipped :: "(string \<Rightarrow> string) \<Rightarrow> string \<Rightarrow> object \<Rightarrow> bool" where
  "domainSkipped ToLower filterName domainMap =
     (let domainName = strField domainMap ''name'' in
      if HasPrefix domainName ''_'' then True
      else if filterName \<noteq> [] \<and> \<not> Contains (ToLower domainName) (ToLower filterName) then True
      else False)"

fun domainsLoop :: "(string \<Rightarrow> string) \<Rightarrow> string \<Rightarrow> object list \<Rightarrow> json list \<Rightarrow> object list" where
  "domainsLoop ToLower filterName formattedDomains [] = formattedDomains"
| "domainsLoop ToLower filterName formattedDomains (domainIface # rest) =
     (case asMap domainIface of
        Some domainMap \<Rightarrow>
          if domainSkipped ToLower filterName domainMap then domainsLoop ToLower filterName formattedDomains rest
          else domainsLoop ToLower filterName (formattedDomains @ [newDomain domainMap]) rest
      | None \<Rightarrow> domainsLoop ToLower filterName formattedDomains rest)"

definition domainBody :: string where
  \<open>domainBody = ''{"error": "Failed to process domain data."}''\<close>

definition domainBranch :: "(string \<Rightarrow> string) \<Rightarrow> json \<Rightarrow> url_values \<Rightarrow> response" where
  "domainBranch ToLower val urlQuery =
     (case asMap val of
        None \<Rightarrow> HttpError domainBody StatusInternalServerError
      | Some valMap \<Rightarrow>
          (case map_of valMap ''domains'' of
             None \<Rightarrow> HttpError domainBody StatusInternalServerError
           | Some domainsIface \<Rightarrow>
               (case asArray domainsIface of
                  None \<Rightarrow> HttpError domainBody StatusInternalServerError
                | Some domains \<Rightarrow>
                    let filterName = Get urlQuery ''domain''
                    in Encode (JArr (map JObj (domainsLoop ToLower filterName [] domains))))))"

subsection \<open>The host list\<close>

definition newHost :: "object \<Rightarrow> object" where
  "newHost hostMap =
     [(''name'', index hostMap ''name''),
      (''state'', index hostMap ''state''),
      (''os'', index hostMap ''os''),
      (''platform'', index hostMap ''platform''),
      (''containers'', index hostMap ''containers'')] @
     (case map_of hostMap ''scan_summary'' of
        None \<Rightarrow> []
      | Some scanSummaryIface \<Rightarrow>
          (case asMap scanSummaryIface of
             None \<Rightarrow> []
           | Some scanSummaryMap \<Rightarrow>
               [(''scan_status'', index scanSummaryMap ''status''),
                (''high'', index scanSummaryMap ''high''),
                (''medium'', index scanSummaryMap ''medium''),
                (''scanned_at'', index scanSummaryMap ''scanned_at'')]))"

definition hostSkipped :: "(string \<Rightarrow> string) \<Rightarrow> string \<Rightarrow> object \<Rightarrow> bool" where
  "hostSkipped ToLower filterName hostMap =
     (let hostName = strField hostMap ''name'' in
      filterName \<noteq> [] \<and> \<not> Contains (ToLower hostName) (ToLower filterName))"

fun hostsLoop :: "(string \<Rightarrow> string) \<Rightarrow> string \<Rightarrow> object list \<Rightarrow> json list \<Rightarrow> object list" where
  "hostsLoop ToLower filterName formattedHosts [] = formattedHosts"
| "hostsLoop ToLower filterName formattedHosts (hostIface # rest) =
     (case asMap hostIface of
        Some hostMap \<Rightarrow>
          if hostSkipped ToLower filterName hostMap then hostsLoop ToLower filterName formattedHosts rest
          else hostsLoop ToLower filterName (formattedHosts @ [newHost hostMap]) rest
      | None \<Rightarrow> hostsLoop ToLower filterName formattedHosts rest)"

definition hostBody :: string where
  \<open>hostBody = ''{"error": "Failed to process host data."}''\<close>

definition hostBranch :: "(string \<Rightarrow> string) \<Rightarrow> json \<Rightarrow> url_values \<Rightarrow> response" where
  "hostBranch ToLower val urlQuery =
     (case asMap val of
        None \<Rightarrow> HttpError hostBody StatusInternalServerError
      | Some valMap \<Rightarrow>
          (case map_of valMap ''hosts'' of
             None \<Rightarrow> HttpError hostBody StatusInternalServerError
           | Some hostsIface \<Rightarrow>
               (case asArray hostsIface of
                  None \<Rightarrow> HttpError hostBody StatusInternalServerError
                | Some hosts \<Rightarrow>
                    let filterName = Get urlQuery ''domain''
                    in Encode (JArr (map JObj (hostsLoop ToLower filterName [] hosts))))))"

subsection \<open>The dispatch on the key and the handler\<close>

text \<open>
  The \<^verbatim>\<open>if\<close> chain on \<^verbatim>\<open>key\<close> with the statement behind it. The three later branches
  end in \<^verbatim>\<open>http.Error\<close> and \<^verbatim>\<open>return\<close>; the group branch has neither, so where it
  does not return, control reaches \<^verbatim>\<open>json.NewEncoder(w).Encode(val)\<close>.
\<close>

definition project :: "(string \<Rightarrow> string) \<Rightarrow> string \<Rightarrow> json \<Rightarrow> url_values \<Rightarrow> response" where
  "project ToLower key val urlQuery =
     (if key = ''/v1/group'' then
        (case groupBranch ToLower val urlQuery of Some r \<Rightarrow> r | None \<Rightarrow> Encode val)
      else if key = ''/v1/scan/platform'' then platformBranch ToLower val
      else if key = ''/v1/domain'' then domainBranch ToLower val urlQuery
      else if key = ''/v1/host'' then hostBranch ToLower val urlQuery
      else Encode val)"

definition invalidKeyBody :: "string \<Rightarrow> string" where
  \<open>invalidKeyBody err = ''{"error": "Invalid key path: '' @ err @ ''"}''\<close>

definition notFoundBody :: "string \<Rightarrow> string" where
  \<open>notFoundBody key = ''{"error": "Key '' @ [CHR 0x27] @ key @ [CHR 0x27] @ '' not found."}''\<close>

definition getDataHandler :: "(string \<Rightarrow> string) \<Rightarrow> object \<Rightarrow> string \<Rightarrow> url_values \<Rightarrow> response" where
  "getDataHandler ToLower neuvectorData urlPath urlQuery =
     (case decodePath (TrimPrefix urlPath ''/api/data/'') of
        (key, Some err) \<Rightarrow> HttpError (invalidKeyBody err) StatusBadRequest
      | (key, None) \<Rightarrow>
          if neuvectorData = [] then HttpError notLoadedBody StatusInternalServerError
          else (case map_of neuvectorData key of
                  None \<Rightarrow> HttpError (notFoundBody key) StatusNotFound
                | Some val \<Rightarrow> project ToLower key val urlQuery))"

section \<open>Vocabulary of the properties\<close>

text \<open>The elements of an array that are maps, in their order.\<close>

fun objects :: "json list \<Rightarrow> object list" where
  "objects [] = []"
| "objects (x # xs) = (case asMap x of Some m \<Rightarrow> m # objects xs | None \<Rightarrow> objects xs)"

text \<open>
  The three filters of the group list, and a second query that keeps every filter the
  first one has switched on, with its value.
\<close>

definition groupFilters :: "string list" where
  "groupFilters = [''zero_drift'', ''domain'', ''policy_mode'']"

definition keepsFilters :: "url_values \<Rightarrow> url_values \<Rightarrow> bool" where
  "keepsFilters q1 q2 = list_all (\<lambda>p. Get q1 p = [] \<or> Get q2 p = Get q1 p) groupFilters"

text \<open>
  The version of a platform record in the words of the specification: a field that is
  missing or not a string reads as the empty string.
\<close>

definition fieldOrEmpty :: "object \<Rightarrow> string \<Rightarrow> string" where
  "fieldOrEmpty m k = (case map_of m k of Some (JStr s) \<Rightarrow> s | _ \<Rightarrow> [])"

definition version_spec :: "(string \<Rightarrow> string) \<Rightarrow> object \<Rightarrow> string" where
  "version_spec ToLower p =
     (if (case map_of p ''platform'' of
            Some (JStr name) \<Rightarrow> Contains (ToLower name) (ToLower ''openshift'')
          | _ \<Rightarrow> False)
      then fieldOrEmpty p ''openshift_version''
      else if (case map_of p ''platform'' of Some (JStr name) \<Rightarrow> False | _ \<Rightarrow> True)
      then fieldOrEmpty p ''version''
      else fieldOrEmpty p ''kube_version'')"

section \<open>Facts about the string functions\<close>

text \<open>The lower-case byte of a capital is the capital plus \<^verbatim>\<open>'a' - 'A'\<close>, which is 32.\<close>

lemma isUpperByte_range:
  "isUpperByte c \<longleftrightarrow> 65 \<le> (of_char c :: nat) \<and> (of_char c :: nat) \<le> 90"
  by (cases c) (simp add: isUpperByte_def)

lemma toLowerByte_arith:
  "isUpperByte c \<Longrightarrow> (of_char (toLowerByte c) :: nat) = of_char c + 32"
  by (cases c) (auto simp: isUpperByte_def)

lemma toLowerByte_other: "\<not> isUpperByte c \<Longrightarrow> toLowerByte c = c"
  by (cases c) simp

lemma HasPrefix_prefix: "HasPrefix s pre \<longleftrightarrow> prefix pre s"
  unfolding HasPrefix_def
  by (metis append_eq_conv_conj prefix_def prefix_length_le)

lemma Contains_Nil [simp]: "Contains s []"
  by (induction s) (simp_all add: HasPrefix_def)

lemma Contains_sublist: "Contains s substr \<longleftrightarrow> sublist substr s"
proof (induction s)
  case Nil
  show ?case by simp
next
  case (Cons c cs)
  show ?case
  proof (cases substr)
    case Nil
    then show ?thesis by simp
  next
    case (Cons d ds)
    then show ?thesis
      using Cons.IH by (simp add: HasPrefix_prefix sublist_Cons_right)
  qed
qed

lemma Contains_iff: "Contains s substr \<longleftrightarrow> (\<exists>u v. s = u @ substr @ v)"
  by (simp add: Contains_sublist sublist_def)

lemma asciiToLower_Nil_iff [simp]: "asciiToLower s = [] \<longleftrightarrow> s = []"
  by (simp add: asciiToLower_def)

section \<open>The loops as filters\<close>

lemma keysLoop_filter:
  "keysLoop ToLower lowerQuery filteredKeys ks = filteredKeys @ filter (\<lambda>key. Contains (ToLower key) lowerQuery) ks"
  by (induction ks arbitrary: filteredKeys) simp_all

lemma groupsLoop_objects:
  "groupsLoop ToLower zd d pm acc gs =
     (if list_all (\<lambda>g. asMap g \<noteq> None) gs
      then Some (acc @ map JObj (filter (\<lambda>g. \<not> groupSkipped ToLower zd d pm g) (objects gs)))
      else None)"
  by (induction gs arbitrary: acc) (auto split: option.splits)

lemma platformsLoop_objects:
  "platformsLoop ToLower acc ps = acc @ map (newPlatform ToLower) (objects ps)"
  by (induction ps arbitrary: acc) (auto split: option.splits)

lemma domainsLoop_objects:
  "domainsLoop ToLower f acc ds = acc @ map newDomain (filter (\<lambda>d. \<not> domainSkipped ToLower f d) (objects ds))"
  by (induction ds arbitrary: acc) (auto split: option.splits)

lemma hostsLoop_objects:
  "hostsLoop ToLower f acc hs = acc @ map newHost (filter (\<lambda>h. \<not> hostSkipped ToLower f h) (objects hs))"
  by (induction hs arbitrary: acc) (auto split: option.splits)

lemma objects_all_maps: "list_all (\<lambda>g. asMap g \<noteq> None) gs \<Longrightarrow> map JObj (objects gs) = gs"
proof (induction gs)
  case Nil
  show ?case by simp
next
  case (Cons g gs)
  then show ?case by (cases g) simp_all
qed

lemma set_objects: "set (objects xs) = {m. JObj m \<in> set xs}"
proof (induction xs)
  case Nil
  show ?case by simp
next
  case (Cons x xs)
  then show ?case by (cases x) auto
qed

section \<open>The branches on a value of the expected shape\<close>

lemma groupBranch_shaped:
  assumes "map_of valMap ''groups'' = Some (JArr groups)"
  shows "groupBranch ToLower (JObj valMap) q =
     Some (if list_all (\<lambda>g. asMap g \<noteq> None) groups
           then Encode (JArr (map JObj (filter
                  (\<lambda>g. \<not> groupSkipped ToLower (Get q ''zero_drift'') (Get q ''domain'')
                          (ToLower (Get q ''policy_mode'')) g) (objects groups))))
           else Panic)"
  using assms by (simp add: groupBranch_def groupsLoop_objects)

lemma project_group_shaped:
  assumes "map_of valMap ''groups'' = Some (JArr groups)"
  shows "project ToLower ''/v1/group'' (JObj valMap) q =
     (if list_all (\<lambda>g. asMap g \<noteq> None) groups
      then Encode (JArr (map JObj (filter
             (\<lambda>g. \<not> groupSkipped ToLower (Get q ''zero_drift'') (Get q ''domain'')
                     (ToLower (Get q ''policy_mode'')) g) (objects groups))))
      else Panic)"
  by (simp add: project_def groupBranch_shaped [OF assms])

lemma project_platform_shaped:
  assumes "map_of valMap ''platforms'' = Some (JArr platforms)"
  shows "project ToLower ''/v1/scan/platform'' (JObj valMap) q =
           Encode (JArr (map (\<lambda>p. JObj (newPlatform ToLower p)) (objects platforms)))"
  using assms by (simp add: project_def platformBranch_def platformsLoop_objects comp_def)

lemma project_domain_shaped:
  assumes "map_of valMap ''domains'' = Some (JArr domains)"
  shows "project ToLower ''/v1/domain'' (JObj valMap) q =
           Encode (JArr (map (\<lambda>d. JObj (newDomain d))
             (filter (\<lambda>d. \<not> domainSkipped ToLower (Get q ''domain'') d) (objects domains))))"
  using assms by (simp add: project_def domainBranch_def domainsLoop_objects comp_def)

lemma project_host_shaped:
  assumes "map_of valMap ''hosts'' = Some (JArr hosts)"
  shows "project ToLower ''/v1/host'' (JObj valMap) q =
           Encode (JArr (map (\<lambda>h. JObj (newHost h))
             (filter (\<lambda>h. \<not> hostSkipped ToLower (Get q ''domain'') h) (objects hosts))))"
  using assms by (simp add: project_def hostBranch_def hostsLoop_objects comp_def)

lemma project_domain_cases:
  "project ToLower ''/v1/domain'' val q = HttpError domainBody StatusInternalServerError \<or>
   (\<exists>valMap domains. val = JObj valMap \<and> map_of valMap ''domains'' = Some (JArr domains))"
proof (cases val)
  case (JObj valMap)
  show ?thesis
  proof (cases "map_of valMap ''domains''")
    case None
    with JObj show ?thesis by (simp add: project_def domainBranch_def)
  next
    case (Some x)
    with JObj show ?thesis by (cases x) (simp_all add: project_def domainBranch_def)
  qed
qed (simp_all add: project_def domainBranch_def)


section \<open>Evaluation on concrete documents\<close>

lemmas string_defs = HasPrefix_def TrimPrefix_def asciiToLower_def isUpperByte_def
lemmas field_defs = Get_def index_def strField_def boolField_def
lemmas handler_defs = getDataHandler_def decodePath_def project_def groupBranch_def
  platformBranch_def domainBranch_def hostBranch_def groupSkipped_def domainSkipped_def
  hostSkipped_def newPlatform_def newDomain_def newHost_def versionToUse_def

section \<open>The group filters\<close>

lemma project_group_cases:
  "(\<forall>q. project ToLower ''/v1/group'' val q = Encode val) \<or>
   (\<exists>valMap groups. val = JObj valMap \<and> map_of valMap ''groups'' = Some (JArr groups))"
proof (cases val)
  case (JObj valMap)
  show ?thesis
  proof (cases "map_of valMap ''groups''")
    case None
    with JObj show ?thesis by (simp add: project_def groupBranch_def)
  next
    case (Some x)
    with JObj show ?thesis by (cases x) (simp_all add: project_def groupBranch_def)
  qed
qed (simp_all add: project_def groupBranch_def)

lemma group_output:
  assumes "map_of valMap ''groups'' = Some (JArr groups)"
    and "project ToLower ''/v1/group'' (JObj valMap) q = Encode (JArr out)"
  shows "out = map JObj (filter
           (\<lambda>g. \<not> groupSkipped ToLower (Get q ''zero_drift'') (Get q ''domain'')
                   (ToLower (Get q ''policy_mode'')) g) (objects groups))"
proof (cases "list_all (\<lambda>g. asMap g \<noteq> None) groups")
  case True
  with assms(2) show ?thesis
    by (simp only: project_group_shaped [where ToLower = ToLower, OF assms(1)] if_True response.inject json.inject)
next
  case False
  with assms(2) show ?thesis
    by (simp only: project_group_shaped [where ToLower = ToLower, OF assms(1)] if_False response.distinct)
qed

lemma groupSkipped_iff:
  "groupSkipped ToLower zd d pm g \<longleftrightarrow>
     HasPrefix (strField g ''name'') ''_'' \<or>
     (zd \<noteq> [] \<and> ((zd = ''true'' \<and> \<not> boolField g ''zero_drift_enabled'') \<or>
                  (zd = ''false'' \<and> boolField g ''zero_drift_enabled''))) \<or>
     (d \<noteq> [] \<and> \<not> Contains (ToLower (strField g ''domain'')) (ToLower d)) \<or>
     (pm \<noteq> [] \<and> ToLower (strField g ''policy_mode'') \<noteq> pm)"
  unfolding groupSkipped_def Let_def by (simp only: if_True if_False split: if_split) blast

lemma groupSkipped_policy:
  "ToLower pm \<noteq> [] \<Longrightarrow> \<not> groupSkipped ToLower zd d (ToLower pm) g \<Longrightarrow>
     ToLower (strField g ''policy_mode'') = ToLower pm"
  unfolding groupSkipped_iff by blast

lemma groupSkipped_policy_only:
  "\<not> HasPrefix (strField g ''name'') ''_'' \<Longrightarrow>
   ToLower (strField g ''policy_mode'') = ToLower pm \<Longrightarrow>
   \<not> groupSkipped ToLower [] [] (ToLower pm) g"
  unfolding groupSkipped_iff by blast

lemma groupSkipped_underscore:
  "HasPrefix (strField g ''name'') ''_'' \<Longrightarrow> groupSkipped ToLower zd d pm g"
  unfolding groupSkipped_iff by blast

lemma groupSkipped_mono_core:
  assumes "Get q1 ''zero_drift'' = [] \<or> Get q2 ''zero_drift'' = Get q1 ''zero_drift''"
    and "Get q1 ''domain'' = [] \<or> Get q2 ''domain'' = Get q1 ''domain''"
    and "ToLower (Get q1 ''policy_mode'') = [] \<or>
         ToLower (Get q2 ''policy_mode'') = ToLower (Get q1 ''policy_mode'')"
    and "groupSkipped ToLower (Get q1 ''zero_drift'') (Get q1 ''domain'') (ToLower (Get q1 ''policy_mode'')) g"
  shows "groupSkipped ToLower (Get q2 ''zero_drift'') (Get q2 ''domain'') (ToLower (Get q2 ''policy_mode'')) g"
  using assms(4) assms(1) assms(2) assms(3) unfolding groupSkipped_iff by metis

lemma groupSkipped_mono:
  assumes "ToLower [] = []"
    and "keepsFilters q1 q2"
    and "groupSkipped ToLower (Get q1 ''zero_drift'') (Get q1 ''domain'') (ToLower (Get q1 ''policy_mode'')) g"
  shows "groupSkipped ToLower (Get q2 ''zero_drift'') (Get q2 ''domain'') (ToLower (Get q2 ''policy_mode'')) g"
proof -
  from assms(2)
  have z: "Get q1 ''zero_drift'' = [] \<or> Get q2 ''zero_drift'' = Get q1 ''zero_drift''"
    and d: "Get q1 ''domain'' = [] \<or> Get q2 ''domain'' = Get q1 ''domain''"
    and p: "Get q1 ''policy_mode'' = [] \<or> Get q2 ''policy_mode'' = Get q1 ''policy_mode''"
    by (simp_all add: keepsFilters_def groupFilters_def)
  from p assms(1)
  have p': "ToLower (Get q1 ''policy_mode'') = [] \<or>
            ToLower (Get q2 ''policy_mode'') = ToLower (Get q1 ''policy_mode'')"
    by metis
  from z d p' assms(3) show ?thesis
    by (rule groupSkipped_mono_core [where ToLower = ToLower])
qed

lemma group_answers_mono:
  assumes mono: "\<And>g. groupSkipped ToLower (Get q1 ''zero_drift'') (Get q1 ''domain'')
                      (ToLower (Get q1 ''policy_mode'')) g
                  \<Longrightarrow> groupSkipped ToLower (Get q2 ''zero_drift'') (Get q2 ''domain'')
                      (ToLower (Get q2 ''policy_mode'')) g"
    and p1: "project ToLower ''/v1/group'' val q1 = Encode (JArr out1)"
    and p2: "project ToLower ''/v1/group'' val q2 = Encode (JArr out2)"
  shows "set out2 \<subseteq> set out1 \<and> subseq out2 out1"
proof -
  from project_group_cases [of ToLower val] show ?thesis
  proof
    assume "\<forall>q. project ToLower ''/v1/group'' val q = Encode val"
    with p1 p2 have "out2 = out1" by simp
    then show ?thesis by simp
  next
    assume "\<exists>valMap groups. val = JObj valMap \<and> map_of valMap ''groups'' = Some (JArr groups)"
    then obtain valMap groups where v: "val = JObj valMap"
      and g: "map_of valMap ''groups'' = Some (JArr groups)" by blast
    let ?K1 = "\<lambda>g. \<not> groupSkipped ToLower (Get q1 ''zero_drift'') (Get q1 ''domain'')
                 (ToLower (Get q1 ''policy_mode'')) g"
    let ?K2 = "\<lambda>g. \<not> groupSkipped ToLower (Get q2 ''zero_drift'') (Get q2 ''domain'')
                 (ToLower (Get q2 ''policy_mode'')) g"
    have o1: "out1 = map JObj (filter ?K1 (objects groups))"
      using group_output [OF g] p1 v by simp
    have o2: "out2 = map JObj (filter ?K2 (objects groups))"
      using group_output [OF g] p2 v by simp
    have "filter ?K2 (objects groups) = filter ?K2 (filter ?K1 (objects groups))"
      using mono by (auto intro: filter_cong)
    then have "subseq (filter ?K2 (objects groups)) (filter ?K1 (objects groups))"
      by (metis subseq_filter_left)
    then have s: "subseq out2 out1"
      unfolding o1 o2 by (rule subseq_map)
    have "set out2 \<subseteq> set out1"
      unfolding o1 o2 using mono by auto
    with s show ?thesis by simp
  qed
qed

section \<open>The platform version\<close>

lemma strField_fieldOrEmpty: "strField m k = fieldOrEmpty m k"
  by (simp add: strField_def fieldOrEmpty_def index_def split: option.splits json.splits)

lemma versionToUse_spec:
  assumes "ToLower ''openshift'' = ''openshift''"
  shows "versionToUse ToLower p = version_spec ToLower p"
proof (cases "map_of p ''platform''")
  case None
  then show ?thesis
    by (simp add: versionToUse_def version_spec_def index_def strField_fieldOrEmpty [symmetric]
        strField_def)
next
  case (Some x)
  then show ?thesis
    by (cases x)
       (simp_all add: versionToUse_def version_spec_def index_def strField_fieldOrEmpty [symmetric]
        strField_def assms)
qed

lemma index_newPlatform_version: "index (newPlatform ToLower p) ''version'' = JStr (versionToUse ToLower p)"
  by (simp add: newPlatform_def index_def)

section \<open>Replacing the encoded slash\<close>

lemma ReplaceAll_no_occurrence:
  "\<not> Contains p old \<Longrightarrow> ReplaceAll p old new = p"
  by (induction p) simp_all

lemma HasPrefix_2F_append:
  assumes "\<not> HasPrefix (c # u) ''%2F''" and "\<not> Contains u ''%2F''"
  shows "\<not> HasPrefix (c # u @ ''%2F'' @ v) ''%2F''"
proof (cases u)
  case Nil
  then show ?thesis by (simp add: HasPrefix_def)
next
  case (Cons d u')
  show ?thesis
  proof (cases u')
    case Nil
    with Cons show ?thesis by (simp add: HasPrefix_def)
  next
    case (Cons e u'')
    with \<open>u = d # u'\<close> assms(1) show ?thesis by (simp add: HasPrefix_def)
  qed
qed

lemma ReplaceAll_2F_first:
  "\<not> Contains u ''%2F'' \<Longrightarrow>
     ReplaceAll (u @ ''%2F'' @ v) ''%2F'' ''/'' = u @ ''/'' @ ReplaceAll v ''%2F'' ''/''"
proof (induction u)
  case Nil
  show ?case by (simp add: HasPrefix_def)
next
  case (Cons c u)
  from Cons.prems have np: "\<not> HasPrefix (c # u) ''%2F''" and nc: "\<not> Contains u ''%2F''"
    by simp_all
  have "\<not> HasPrefix (c # u @ ''%2F'' @ v) ''%2F''"
    by (rule HasPrefix_2F_append [OF np nc])
  then have "ReplaceAll ((c # u) @ ''%2F'' @ v) ''%2F'' ''/'' = c # ReplaceAll (u @ ''%2F'' @ v) ''%2F'' ''/''"
    by simp
  with Cons.IH [OF nc] show ?case by simp
qed

lemma ReplaceAll_2F_head:
  assumes "ReplaceAll cs ''%2F'' ''/'' = x # r" and "x \<noteq> CHR ''/''"
  shows "\<exists>cs'. cs = x # cs' \<and> r = ReplaceAll cs' ''%2F'' ''/''"
proof (cases cs)
  case Nil
  with assms(1) show ?thesis by simp
next
  case (Cons d ds)
  with assms show ?thesis by (auto split: if_splits)
qed

lemma HasPrefix_2F_ReplaceAll:
  assumes "HasPrefix (c # ReplaceAll cs ''%2F'' ''/'') ''%2F''"
  shows "HasPrefix (c # cs) ''%2F''"
proof -
  from assms obtain r where c: "c = CHR ''%''" and r: "ReplaceAll cs ''%2F'' ''/'' = CHR ''2'' # CHR ''F'' # r"
    by (cases "ReplaceAll cs ''%2F'' ''/''"; cases "tl (ReplaceAll cs ''%2F'' ''/'')")
       (auto simp: HasPrefix_def)
  from ReplaceAll_2F_head [OF r] obtain cs' where cs: "cs = CHR ''2'' # cs'"
    and r': "ReplaceAll cs' ''%2F'' ''/'' = CHR ''F'' # r" by auto
  from ReplaceAll_2F_head [OF r'] obtain cs'' where "cs' = CHR ''F'' # cs''" by auto
  with c cs show ?thesis by (simp add: HasPrefix_def)
qed

lemma ReplaceAll_2F_none_left:
  "old = ''%2F'' \<Longrightarrow> new = ''/'' \<Longrightarrow> \<not> Contains (ReplaceAll p old new) old"
proof (induction p old new rule: ReplaceAll.induct)
  case (1 old new)
  then show ?case by simp
next
  case (2 c cs old new)
  show ?case
  proof (cases "HasPrefix (c # cs) old")
    case True
    with 2 have "\<not> Contains (ReplaceAll (drop (length old) (c # cs)) old new) old"
      by simp
    with True 2 show ?thesis by (simp add: HasPrefix_def)
  next
    case False
    with 2 have ih: "\<not> Contains (ReplaceAll cs old new) old" by simp
    from False 2 have "\<not> HasPrefix (c # ReplaceAll cs old new) old"
      using HasPrefix_2F_ReplaceAll by blast
    with False ih show ?thesis by simp
  qed
qed

section \<open>Map elements of an array\<close>

lemma in_objects: "JObj m \<in> set xs \<Longrightarrow> m \<in> set (objects xs)"
  by (simp add: set_objects)

section \<open>The key catalog\<close>

lemma getKeysHandler_filter:
  assumes "neuvectorData \<noteq> []" and "ToLower [] = []"
  shows "getKeysHandler ToLower neuvectorData rangeKeys urlQuery
           = Encode (JArr (map JStr
               (filter (\<lambda>key. Contains (ToLower key) (ToLower (Get urlQuery ''q''))) rangeKeys)))"
proof (cases "Get urlQuery ''q'' = []")
  case True
  with assms show ?thesis
    by (simp add: getKeysHandler_def)
next
  case False
  with assms(1) show ?thesis
    by (simp add: getKeysHandler_def keysLoop_filter)
qed

lemma isRangeOrder_filter:
  assumes "isRangeOrder neuvectorData rangeKeys"
  shows "distinct (filter P rangeKeys) \<and>
         set (filter P rangeKeys) = {k. k \<in> fst ` set neuvectorData \<and> P k}"
proof -
  from assms have d: "distinct rangeKeys" and s: "set rangeKeys = fst ` set neuvectorData"
    by (simp_all add: isRangeOrder_def)
  have "set (filter P rangeKeys) = {k. k \<in> set rangeKeys \<and> P k}"
    by (rule set_filter)
  with d s show ?thesis by simp
qed

section \<open>The claims\<close>

text \<open>
  C1. The claim: under the key \<^verbatim>\<open>/v1/group\<close>, a value that is not a map with an array
  field \<^verbatim>\<open>groups\<close> is answered with the internal-error status, as under the other three
  recognised keys. The handler does otherwise: for each of the three ways the shape can
  fail (no map, no field \<^verbatim>\<open>groups\<close>, a field that is no array) it answers with status 200
  and the raw value, while the platform, domain and host branches answer the same
  malformed value with status 500.
\<close>
theorem C1_group_shape_mismatch_encodes_raw_value:
  "getDataHandler ToLower [(''/v1/group'', JStr ''oops'')] ''/api/data/%2Fv1%2Fgroup'' [] = Encode (JStr ''oops'')
   \<and> getDataHandler ToLower [(''/v1/group'', JObj [(''items'', JArr [])])] ''/api/data//v1/group'' []
       = Encode (JObj [(''items'', JArr [])])
   \<and> getDataHandler ToLower [(''/v1/group'', JObj [(''groups'', JStr ''none'')])] ''/api/data/%2Fv1%2Fgroup'' []
       = Encode (JObj [(''groups'', JStr ''none'')])
   \<and> getDataHandler ToLower [(''/v1/scan/platform'', JStr ''oops'')] ''/api/data/%2Fv1%2Fscan%2Fplatform'' []
       = HttpError platformBody 500
   \<and> getDataHandler ToLower [(''/v1/domain'', JStr ''oops'')] ''/api/data/%2Fv1%2Fdomain'' []
       = HttpError domainBody 500
   \<and> getDataHandler ToLower [(''/v1/host'', JStr ''oops'')] ''/api/data/%2Fv1%2Fhost'' []
       = HttpError hostBody 500"
  by (simp add: getDataHandler_def decodePath_def TrimPrefix_def HasPrefix_def project_def
      groupBranch_def platformBranch_def domainBranch_def hostBranch_def
      StatusInternalServerError_def)

text \<open>
  C2. A key outside the four recognised ones, present in the document with value \<open>v\<close>,
  is answered with exactly \<open>v\<close> and status 200, whatever the query parameters are: by the
  dispatch on the key, and by the handler as a whole when the path decodes to the key.
\<close>

theorem C2_unrecognized_key_passes_through:
  assumes "key \<notin> {''/v1/group'', ''/v1/scan/platform'', ''/v1/domain'', ''/v1/host''}"
    and "map_of neuvectorData key = Some v"
    and "fst (decodePath (TrimPrefix urlPath ''/api/data/'')) = key"
  shows "project ToLower key v urlQuery = Encode v \<and>
         getDataHandler ToLower neuvectorData urlPath urlQuery = Encode v"
proof -
  have p: "project ToLower key v urlQuery = Encode v"
    using assms(1) by (simp add: project_def)
  have ne: "neuvectorData \<noteq> []"
    using assms(2) by auto
  have d: "decodePath (TrimPrefix urlPath ''/api/data/'') = (key, None)"
    using assms(3) by (simp add: decodePath_def)
  show ?thesis
    using p ne assms(2) by (simp add: getDataHandler_def d)
qed

theorem C2_unrecognized_key_passes_through_witness:
  "project asciiToLower ''/v1/controller'' (JArr [JStr ''_c1'', JNum 2]) [(''domain'', ''prod''), (''zero_drift'', ''true'')]
     = Encode (JArr [JStr ''_c1'', JNum 2]) \<and>
   getDataHandler asciiToLower [(''/v1/group'', JNull), (''/v1/controller'', JArr [JStr ''_c1'', JNum 2])]
     ''/api/data/%2Fv1%2Fcontroller'' [(''domain'', ''prod''), (''zero_drift'', ''true'')]
     = Encode (JArr [JStr ''_c1'', JNum 2])"
proof -
  have h1: "''/v1/controller'' \<notin> {''/v1/group'', ''/v1/scan/platform'', ''/v1/domain'', ''/v1/host''}"
    by simp
  have h2: "map_of [(''/v1/group'', JNull), (''/v1/controller'', JArr [JStr ''_c1'', JNum 2])]
              ''/v1/controller'' = Some (JArr [JStr ''_c1'', JNum 2])"
    by simp
  have h3: "fst (decodePath (TrimPrefix ''/api/data/%2Fv1%2Fcontroller'' ''/api/data/'')) = ''/v1/controller''"
    by (simp add: decodePath_def TrimPrefix_def HasPrefix_def)
  show ?thesis
    by (rule C2_unrecognized_key_passes_through [OF h1 h2 h3])
qed

text \<open>
  C3. Under the group key with a non-empty \<^verbatim>\<open>policy_mode\<close> parameter, every group in the
  answer has a \<^verbatim>\<open>policy_mode\<close> field (the empty string when missing or no string) whose
  image under \<^verbatim>\<open>strings.ToLower\<close> is equal to the image of the parameter; and when no
  other filter is active, every group with such a field whose name does not start with
  an underscore is in the answer. One fact of \<^verbatim>\<open>strings.ToLower\<close> is used: only the empty
  string has an empty image. Equality, not containment: in the example that follows,
  \<^verbatim>\<open>Monitor\<close> is kept for \<^verbatim>\<open>MONITOR\<close> and \<^verbatim>\<open>Monitor\<close>, dropped for \<^verbatim>\<open>monitoring\<close>
  and for \<^verbatim>\<open>mon\<close>.
\<close>

theorem C3_policy_mode_exact_match:
  assumes "map_of valMap ''groups'' = Some (JArr groups)"
    and "Get q ''policy_mode'' \<noteq> []"
    and "project ToLower ''/v1/group'' (JObj valMap) q = Encode (JArr out)"
    and "\<And>s. ToLower s = [] \<Longrightarrow> s = []"
  shows "(\<forall>g\<in>set out. \<exists>grp. g = JObj grp \<and> JObj grp \<in> set groups \<and>
            ToLower (strField grp ''policy_mode'') = ToLower (Get q ''policy_mode'')) \<and>
         (\<forall>grp. JObj grp \<in> set groups \<and> \<not> HasPrefix (strField grp ''name'') ''_'' \<and>
            Get q ''zero_drift'' = [] \<and> Get q ''domain'' = [] \<and>
            ToLower (strField grp ''policy_mode'') = ToLower (Get q ''policy_mode'')
            \<longrightarrow> JObj grp \<in> set out)"
proof -
  note out = group_output [OF assms(1) assms(3)]
  from assms(2) assms(4) have active: "ToLower (Get q ''policy_mode'') \<noteq> []"
    by blast
  have a: "\<forall>g\<in>set out. \<exists>grp. g = JObj grp \<and> JObj grp \<in> set groups \<and>
            ToLower (strField grp ''policy_mode'') = ToLower (Get q ''policy_mode'')"
    unfolding out using groupSkipped_policy [where ToLower = ToLower, OF active]
    by (auto simp: set_objects)
  have b: "\<forall>grp. JObj grp \<in> set groups \<and> \<not> HasPrefix (strField grp ''name'') ''_'' \<and>
            Get q ''zero_drift'' = [] \<and> Get q ''domain'' = [] \<and>
            ToLower (strField grp ''policy_mode'') = ToLower (Get q ''policy_mode'')
            \<longrightarrow> JObj grp \<in> set out"
    unfolding out using groupSkipped_policy_only
    by (auto simp: set_objects)
  from a b show ?thesis by blast
qed

theorem C3_policy_mode_exact_match_witness:
  "project asciiToLower ''/v1/group''
      (JObj [(''groups'', JArr [JObj [(''name'', JStr ''g1''), (''policy_mode'', JStr ''Monitor'')],
                               JObj [(''name'', JStr ''g2'')]])])
      [(''policy_mode'', ''MONITOR'')]
     = Encode (JArr [JObj [(''name'', JStr ''g1''), (''policy_mode'', JStr ''Monitor'')]]) \<and>
   project asciiToLower ''/v1/group''
      (JObj [(''groups'', JArr [JObj [(''name'', JStr ''g1''), (''policy_mode'', JStr ''Monitor'')],
                               JObj [(''name'', JStr ''g2'')]])])
      [(''policy_mode'', ''Monitor'')]
     = Encode (JArr [JObj [(''name'', JStr ''g1''), (''policy_mode'', JStr ''Monitor'')]]) \<and>
   project asciiToLower ''/v1/group''
      (JObj [(''groups'', JArr [JObj [(''name'', JStr ''g1''), (''policy_mode'', JStr ''Monitor'')],
                               JObj [(''name'', JStr ''g2'')]])])
      [(''policy_mode'', ''monitoring'')]
     = Encode (JArr []) \<and>
   project asciiToLower ''/v1/group''
      (JObj [(''groups'', JArr [JObj [(''name'', JStr ''g1''), (''policy_mode'', JStr ''Monitor'')],
                               JObj [(''name'', JStr ''g2'')]])])
      [(''policy_mode'', ''mon'')]
     = Encode (JArr []) \<and>
   asciiToLower (strField [(''name'', JStr ''g1''), (''policy_mode'', JStr ''Monitor'')] ''policy_mode'')
     = asciiToLower (Get [(''policy_mode'', ''MONITOR'')] ''policy_mode'')"
proof -
  let ?g1 = "JObj [(''name'', JStr ''g1''), (''policy_mode'', JStr ''Monitor'')]"
  let ?groups = "[?g1, JObj [(''name'', JStr ''g2'')]]"
  let ?valMap = "[(''groups'', JArr ?groups)]"
  have h1: "map_of ?valMap ''groups'' = Some (JArr ?groups)"
    by simp
  have h2: "Get [(''policy_mode'', ''MONITOR'')] ''policy_mode'' \<noteq> []"
    by (simp add: Get_def)
  have h3: "project asciiToLower ''/v1/group'' (JObj ?valMap) [(''policy_mode'', ''MONITOR'')] = Encode (JArr [?g1])"
    by (simp add: handler_defs field_defs string_defs)
  have e2: "project asciiToLower ''/v1/group'' (JObj ?valMap) [(''policy_mode'', ''Monitor'')] = Encode (JArr [?g1])"
    by (simp add: handler_defs field_defs string_defs)
  have e3: "project asciiToLower ''/v1/group'' (JObj ?valMap) [(''policy_mode'', ''monitoring'')] = Encode (JArr [])"
    by (simp add: handler_defs field_defs string_defs)
  have e4: "project asciiToLower ''/v1/group'' (JObj ?valMap) [(''policy_mode'', ''mon'')] = Encode (JArr [])"
    by (simp add: handler_defs field_defs string_defs)
  have h4: "asciiToLower s = [] \<Longrightarrow> s = []" for s
    by simp
  from C3_policy_mode_exact_match [where ToLower = asciiToLower, OF h1 h2 h3 h4]
  have "asciiToLower (strField [(''name'', JStr ''g1''), (''policy_mode'', JStr ''Monitor'')] ''policy_mode'')
          = asciiToLower (Get [(''policy_mode'', ''MONITOR'')] ''policy_mode'')"
    by auto
  with h3 e2 e3 e4 show ?thesis by blast
qed

text \<open>
  C4. Group filtering is monotonic: when a second query keeps every filter that the first
  has switched on, with the same value, and both are answered with a list, the second
  list is a subsequence of the first, so its elements are among the first's. In
  particular the answer to \<^verbatim>\<open>zero_drift=true&domain=x\<close> lies within the answer to
  \<^verbatim>\<open>domain=x\<close>, whatever \<^verbatim>\<open>strings.ToLower\<close> is. The general statement holds whatever
  \<^verbatim>\<open>strings.ToLower\<close> does to a non-empty string; of the empty string it is used that it
  stays empty (an absent \<^verbatim>\<open>policy_mode\<close> switches no filter on).
\<close>

theorem C4_group_filtering_monotonic:
  "(ToLower [] = [] \<longrightarrow>
      (\<forall>q1 q2 val out1 out2.
         keepsFilters q1 q2 \<and>
         project ToLower ''/v1/group'' val q1 = Encode (JArr out1) \<and>
         project ToLower ''/v1/group'' val q2 = Encode (JArr out2)
         \<longrightarrow> set out2 \<subseteq> set out1 \<and> subseq out2 out1)) \<and>
   (\<forall>x val out1 out2.
      project ToLower ''/v1/group'' val [(''domain'', x)] = Encode (JArr out1) \<and>
      project ToLower ''/v1/group'' val [(''zero_drift'', ''true''), (''domain'', x)] = Encode (JArr out2)
      \<longrightarrow> set out2 \<subseteq> set out1)"
proof (intro conjI impI allI)
  fix q1 q2 val out1 out2
  assume e: "ToLower [] = []"
    and k: "keepsFilters q1 q2 \<and>
         project ToLower ''/v1/group'' val q1 = Encode (JArr out1) \<and>
         project ToLower ''/v1/group'' val q2 = Encode (JArr out2)"
  from k have kf: "keepsFilters q1 q2"
    and p1: "project ToLower ''/v1/group'' val q1 = Encode (JArr out1)"
    and p2: "project ToLower ''/v1/group'' val q2 = Encode (JArr out2)"
    by blast+
  have both: "set out2 \<subseteq> set out1 \<and> subseq out2 out1"
    by (rule group_answers_mono [where ToLower = ToLower, OF groupSkipped_mono [where ToLower = ToLower, OF e kf] p1 p2])
  from both show "set out2 \<subseteq> set out1" ..
  from both show "subseq out2 out1" ..
next
  fix x :: string and val out1 out2
  let ?q1 = "[(''domain'', x)]"
  let ?q2 = "[(''zero_drift'', ''true''), (''domain'', x)]"
  assume k: "project ToLower ''/v1/group'' val ?q1 = Encode (JArr out1) \<and>
      project ToLower ''/v1/group'' val ?q2 = Encode (JArr out2)"
  then have p1: "project ToLower ''/v1/group'' val ?q1 = Encode (JArr out1)"
    and p2: "project ToLower ''/v1/group'' val ?q2 = Encode (JArr out2)"
    by blast+
  have z: "Get ?q1 ''zero_drift'' = [] \<or> Get ?q2 ''zero_drift'' = Get ?q1 ''zero_drift''"
    by (simp add: Get_def)
  have d: "Get ?q1 ''domain'' = [] \<or> Get ?q2 ''domain'' = Get ?q1 ''domain''"
    by (simp add: Get_def)
  have p: "ToLower (Get ?q1 ''policy_mode'') = [] \<or>
           ToLower (Get ?q2 ''policy_mode'') = ToLower (Get ?q1 ''policy_mode'')"
    by (simp add: Get_def)
  have "set out2 \<subseteq> set out1 \<and> subseq out2 out1"
    by (rule group_answers_mono [where ToLower = ToLower,
          OF groupSkipped_mono_core [where ToLower = ToLower, OF z d p] p1 p2])
  then show "set out2 \<subseteq> set out1" ..
qed

theorem C4_group_filtering_monotonic_witness:
  "keepsFilters [(''domain'', ''prod'')] [(''zero_drift'', ''true''), (''domain'', ''prod'')] \<and>
   project asciiToLower ''/v1/group''
     (JObj [(''groups'', JArr
        [JObj [(''name'', JStr ''g1''), (''domain'', JStr ''prod''), (''zero_drift_enabled'', JBool True)],
         JObj [(''name'', JStr ''g2''), (''domain'', JStr ''Prod-2'')],
         JObj [(''name'', JStr ''g3''), (''domain'', JStr ''dev''), (''zero_drift_enabled'', JBool True)]])])
     [(''domain'', ''prod'')]
   = Encode (JArr
        [JObj [(''name'', JStr ''g1''), (''domain'', JStr ''prod''), (''zero_drift_enabled'', JBool True)],
         JObj [(''name'', JStr ''g2''), (''domain'', JStr ''Prod-2'')]]) \<and>
   project asciiToLower ''/v1/group''
     (JObj [(''groups'', JArr
        [JObj [(''name'', JStr ''g1''), (''domain'', JStr ''prod''), (''zero_drift_enabled'', JBool True)],
         JObj [(''name'', JStr ''g2''), (''domain'', JStr ''Prod-2'')],
         JObj [(''name'', JStr ''g3''), (''domain'', JStr ''dev''), (''zero_drift_enabled'', JBool True)]])])
     [(''zero_drift'', ''true''), (''domain'', ''prod'')]
   = Encode (JArr
        [JObj [(''name'', JStr ''g1''), (''domain'', JStr ''prod''), (''zero_drift_enabled'', JBool True)]]) \<and>
   set [JObj [(''name'', JStr ''g1''), (''domain'', JStr ''prod''), (''zero_drift_enabled'', JBool True)]]
     \<subseteq> set [JObj [(''name'', JStr ''g1''), (''domain'', JStr ''prod''), (''zero_drift_enabled'', JBool True)],
             JObj [(''name'', JStr ''g2''), (''domain'', JStr ''Prod-2'')]]"
proof -
  let ?g1 = "JObj [(''name'', JStr ''g1''), (''domain'', JStr ''prod''), (''zero_drift_enabled'', JBool True)]"
  let ?g2 = "JObj [(''name'', JStr ''g2''), (''domain'', JStr ''Prod-2'')]"
  let ?g3 = "JObj [(''name'', JStr ''g3''), (''domain'', JStr ''dev''), (''zero_drift_enabled'', JBool True)]"
  let ?val = "JObj [(''groups'', JArr [?g1, ?g2, ?g3])]"
  let ?q1 = "[(''domain'', ''prod'')]"
  let ?q2 = "[(''zero_drift'', ''true''), (''domain'', ''prod'')]"
  have h1: "keepsFilters ?q1 ?q2"
    by (simp add: keepsFilters_def groupFilters_def Get_def)
  have h2: "project asciiToLower ''/v1/group'' ?val ?q1 = Encode (JArr [?g1, ?g2])"
    by (simp add: handler_defs field_defs string_defs)
  have h3: "project asciiToLower ''/v1/group'' ?val ?q2 = Encode (JArr [?g1])"
    by (simp add: handler_defs field_defs string_defs)
  have h0: "asciiToLower [] = []"
    by simp
  from C4_group_filtering_monotonic [where ToLower = asciiToLower] h0 h1 h2 h3
  have "set [?g1] \<subseteq> set [?g1, ?g2]"
    by blast
  with h1 h2 h3 show ?thesis by blast
qed

text \<open>
  C5. Under the group key (on a value of the expected shape) and under the domain key,
  whatever the query parameters are, no element of the answer has a \<^verbatim>\<open>name\<close> starting
  with an underscore: a group of the document with such a name is not in the answer, and
  every domain record of the answer was built from a domain whose name does not start
  with an underscore.
\<close>

theorem C5_underscore_names_never_listed:
  "(\<forall>valMap groups q out.
      map_of valMap ''groups'' = Some (JArr groups) \<and>
      project ToLower ''/v1/group'' (JObj valMap) q = Encode (JArr out)
      \<longrightarrow> (\<forall>g\<in>set out. \<exists>grp. g = JObj grp \<and> \<not> HasPrefix (strField grp ''name'') ''_'') \<and>
          (\<forall>grp. JObj grp \<in> set groups \<and> HasPrefix (strField grp ''name'') ''_''
                   \<longrightarrow> JObj grp \<notin> set out)) \<and>
   (\<forall>val q out.
      project ToLower ''/v1/domain'' val q = Encode (JArr out)
      \<longrightarrow> (\<forall>d\<in>set out. \<exists>domainMap. d = JObj (newDomain domainMap) \<and>
             \<not> HasPrefix (strField domainMap ''name'') ''_'' \<and>
             \<not> HasPrefix (strField (newDomain domainMap) ''name'') ''_''))"
proof -
  have grp: "(\<forall>g\<in>set out. \<exists>grp. g = JObj grp \<and> \<not> HasPrefix (strField grp ''name'') ''_'') \<and>
          (\<forall>grp. JObj grp \<in> set groups \<and> HasPrefix (strField grp ''name'') ''_''
                   \<longrightarrow> JObj grp \<notin> set out)"
    if g: "map_of valMap ''groups'' = Some (JArr groups)"
      and p: "project ToLower ''/v1/group'' (JObj valMap) q = Encode (JArr out)"
    for valMap groups q out
    unfolding group_output [OF g p] using groupSkipped_underscore by auto
  have name: "strField (newDomain m) ''name'' = strField m ''name''" for m
    by (simp add: newDomain_def strField_def index_def)
  have dom: "\<forall>d\<in>set out. \<exists>domainMap. d = JObj (newDomain domainMap) \<and>
             \<not> HasPrefix (strField domainMap ''name'') ''_'' \<and>
             \<not> HasPrefix (strField (newDomain domainMap) ''name'') ''_''"
    if p: "project ToLower ''/v1/domain'' val q = Encode (JArr out)" for val q out
  proof -
    from project_domain_cases [of ToLower val q] p
    obtain valMap domains where v: "val = JObj valMap"
      and d: "map_of valMap ''domains'' = Some (JArr domains)" by auto
    have "out = map (\<lambda>d. JObj (newDomain d))
             (filter (\<lambda>d. \<not> domainSkipped ToLower (Get q ''domain'') d) (objects domains))"
      using p unfolding v project_domain_shaped [where ToLower = ToLower, OF d] by simp
    then show ?thesis
      by (auto simp: name domainSkipped_def Let_def split: if_splits)
  qed
  from grp dom show ?thesis by blast
qed

theorem C5_underscore_names_never_listed_witness:
  "project asciiToLower ''/v1/group''
     (JObj [(''groups'', JArr [JObj [(''name'', JStr ''g1''), (''domain'', JStr ''prod''), (''policy_mode'', JStr ''Monitor'')],
                              JObj [(''name'', JStr ''_sys''), (''domain'', JStr ''prod'')]])])
     [(''domain'', ''prod'')]
   = Encode (JArr [JObj [(''name'', JStr ''g1''), (''domain'', JStr ''prod''), (''policy_mode'', JStr ''Monitor'')]]) \<and>
   JObj [(''name'', JStr ''_sys''), (''domain'', JStr ''prod'')]
     \<notin> set [JObj [(''name'', JStr ''g1''), (''domain'', JStr ''prod''), (''policy_mode'', JStr ''Monitor'')]] \<and>
   project asciiToLower ''/v1/domain''
     (JObj [(''domains'', JArr [JObj [(''name'', JStr ''_fed''), (''workloads'', JNum 1)],
                               JObj [(''name'', JStr ''prod''), (''workloads'', JNum 7)]])])
     []
   = Encode (JArr [JObj (newDomain [(''name'', JStr ''prod''), (''workloads'', JNum 7)])]) \<and>
   \<not> HasPrefix (strField (newDomain [(''name'', JStr ''prod''), (''workloads'', JNum 7)]) ''name'') ''_''"
proof -
  let ?g1 = "JObj [(''name'', JStr ''g1''), (''domain'', JStr ''prod''), (''policy_mode'', JStr ''Monitor'')]"
  let ?sys = "[(''name'', JStr ''_sys''), (''domain'', JStr ''prod'')]"
  let ?groups = "[?g1, JObj ?sys]"
  let ?valMap = "[(''groups'', JArr ?groups)]"
  let ?dval = "JObj [(''domains'', JArr [JObj [(''name'', JStr ''_fed''), (''workloads'', JNum 1)],
                               JObj [(''name'', JStr ''prod''), (''workloads'', JNum 7)]])]"
  let ?dout = "[JObj (newDomain [(''name'', JStr ''prod''), (''workloads'', JNum 7)])]"
  have h1: "map_of ?valMap ''groups'' = Some (JArr ?groups)"
    by simp
  have h2: "project asciiToLower ''/v1/group'' (JObj ?valMap) [(''domain'', ''prod'')] = Encode (JArr [?g1])"
    by (simp add: handler_defs field_defs string_defs)
  have h3: "JObj ?sys \<in> set ?groups"
    by simp
  have h4: "HasPrefix (strField ?sys ''name'') ''_''"
    by (simp add: field_defs string_defs)
  have h5: "project asciiToLower ''/v1/domain'' ?dval [] = Encode (JArr ?dout)"
    by (simp add: handler_defs field_defs string_defs)
  from C5_underscore_names_never_listed [where ToLower = asciiToLower] h1 h2 h3 h4
  have a: "JObj ?sys \<notin> set [?g1]"
    by blast
  from C5_underscore_names_never_listed [where ToLower = asciiToLower] h5
  have "\<forall>d\<in>set ?dout. \<exists>domainMap. d = JObj (newDomain domainMap) \<and>
          \<not> HasPrefix (strField domainMap ''name'') ''_'' \<and>
          \<not> HasPrefix (strField (newDomain domainMap) ''name'') ''_''"
    by blast
  then obtain domainMap
    where "JObj (newDomain [(''name'', JStr ''prod''), (''workloads'', JNum 7)]) = JObj (newDomain domainMap)"
      and "\<not> HasPrefix (strField (newDomain domainMap) ''name'') ''_''"
    by auto
  then have b: "\<not> HasPrefix (strField (newDomain [(''name'', JStr ''prod''), (''workloads'', JNum 7)]) ''name'') ''_''"
    by simp
  from h2 a h5 b show ?thesis by blast
qed

text \<open>
  C6. Under the platform key, a value of the expected shape is answered with one record
  per map element, and the \<^verbatim>\<open>version\<close> field of each record is the version in the words
  of the specification: \<^verbatim>\<open>openshift_version\<close> when the \<^verbatim>\<open>platform\<close> field is a string
  whose image under \<^verbatim>\<open>strings.ToLower\<close> contains the image of \<^verbatim>\<open>openshift\<close>; the
  element's own \<^verbatim>\<open>version\<close> when the \<^verbatim>\<open>platform\<close> field is missing or no string;
  \<^verbatim>\<open>kube_version\<close> otherwise; the empty string when the chosen field is missing or no
  string. One fact of \<^verbatim>\<open>strings.ToLower\<close> is used: \<^verbatim>\<open>openshift\<close> is its own image.
\<close>

theorem C6_platform_version:
  "(\<forall>valMap platforms q.
      map_of valMap ''platforms'' = Some (JArr platforms)
      \<longrightarrow> project ToLower ''/v1/scan/platform'' (JObj valMap) q
            = Encode (JArr (map (\<lambda>p. JObj (newPlatform ToLower p)) (objects platforms)))) \<and>
   (ToLower ''openshift'' = ''openshift''
      \<longrightarrow> (\<forall>p. index (newPlatform ToLower p) ''version'' = JStr (version_spec ToLower p)))"
proof (intro conjI allI impI)
  fix valMap platforms q
  assume "map_of valMap ''platforms'' = Some (JArr platforms)"
  then show "project ToLower ''/v1/scan/platform'' (JObj valMap) q
            = Encode (JArr (map (\<lambda>p. JObj (newPlatform ToLower p)) (objects platforms)))"
    by (rule project_platform_shaped)
next
  fix p
  assume e: "ToLower ''openshift'' = ''openshift''"
  show "index (newPlatform ToLower p) ''version'' = JStr (version_spec ToLower p)"
    by (simp only: index_newPlatform_version versionToUse_spec [where ToLower = ToLower, OF e])
qed

theorem C6_platform_version_witness:
  "project asciiToLower ''/v1/scan/platform''
     (JObj [(''platforms'', JArr
        [JObj [(''platform'', JStr ''Kubernetes-OpenShift''), (''kube_version'', JStr ''1.27''),
               (''openshift_version'', JStr ''4.14''), (''version'', JStr ''9'')],
         JObj [(''platform'', JStr ''Kubernetes''), (''kube_version'', JStr ''1.28''),
               (''openshift_version'', JStr ''4.15''), (''version'', JStr ''9'')],
         JObj [(''platform'', JNum 7), (''kube_version'', JStr ''1.29''), (''version'', JStr ''9'')],
         JObj [(''platform'', JStr ''Rancher''), (''kube_version'', JNum 1)]])])
     []
   = Encode (JArr
        [JObj [(''platform'', JStr ''Kubernetes-OpenShift''), (''status'', JNull), (''version'', JStr ''4.14'')],
         JObj [(''platform'', JStr ''Kubernetes''), (''status'', JNull), (''version'', JStr ''1.28'')],
         JObj [(''platform'', JNum 7), (''status'', JNull), (''version'', JStr ''9'')],
         JObj [(''platform'', JStr ''Rancher''), (''status'', JNull), (''version'', JStr [])]]) \<and>
   index (newPlatform asciiToLower [(''platform'', JNum 7), (''kube_version'', JStr ''1.29''), (''version'', JStr ''9'')])
     ''version'' = JStr ''9''"
proof -
  let ?p1 = "[(''platform'', JStr ''Kubernetes-OpenShift''), (''kube_version'', JStr ''1.27''),
               (''openshift_version'', JStr ''4.14''), (''version'', JStr ''9'')]"
  let ?p2 = "[(''platform'', JStr ''Kubernetes''), (''kube_version'', JStr ''1.28''),
               (''openshift_version'', JStr ''4.15''), (''version'', JStr ''9'')]"
  let ?p3 = "[(''platform'', JNum 7), (''kube_version'', JStr ''1.29''), (''version'', JStr ''9'')]"
  let ?p4 = "[(''platform'', JStr ''Rancher''), (''kube_version'', JNum 1)]"
  let ?platforms = "[JObj ?p1, JObj ?p2, JObj ?p3, JObj ?p4]"
  let ?valMap = "[(''platforms'', JArr ?platforms)]"
  have h: "map_of ?valMap ''platforms'' = Some (JArr ?platforms)"
    by simp
  have h0: "asciiToLower ''openshift'' = ''openshift''"
    by (simp add: string_defs)
  from C6_platform_version [where ToLower = asciiToLower] h
  have "project asciiToLower ''/v1/scan/platform'' (JObj ?valMap) []
          = Encode (JArr (map (\<lambda>p. JObj (newPlatform asciiToLower p)) (objects ?platforms)))"
    by blast
  then have a: "project asciiToLower ''/v1/scan/platform'' (JObj ?valMap) []
          = Encode (JArr
             [JObj [(''platform'', JStr ''Kubernetes-OpenShift''), (''status'', JNull), (''version'', JStr ''4.14'')],
              JObj [(''platform'', JStr ''Kubernetes''), (''status'', JNull), (''version'', JStr ''1.28'')],
              JObj [(''platform'', JNum 7), (''status'', JNull), (''version'', JStr ''9'')],
              JObj [(''platform'', JStr ''Rancher''), (''status'', JNull), (''version'', JStr [])]])"
    by (simp add: handler_defs field_defs string_defs)
  have "version_spec asciiToLower ?p3 = ''9''"
    by (simp add: version_spec_def fieldOrEmpty_def)
  with C6_platform_version [where ToLower = asciiToLower] h0 have b: "index (newPlatform asciiToLower ?p3) ''version'' = JStr ''9''"
    by simp
  from a b show ?thesis by blast
qed

text \<open>
  C7. \<^verbatim>\<open>decodePath\<close> never returns an error. A segment without \<^verbatim>\<open>%2F\<close> is returned as
  it is, so no other percent-encoding is decoded; the first \<^verbatim>\<open>%2F\<close> of a segment becomes
  a slash, the text before it stays and the text behind it is decoded in the same way;
  and no \<^verbatim>\<open>%2F\<close> is left in the result.
\<close>

theorem C7_decodePath_total:
  "snd (decodePath p) = None \<and>
   (\<not> Contains p ''%2F'' \<longrightarrow> fst (decodePath p) = p) \<and>
   (\<not> Contains u ''%2F'' \<longrightarrow>
      fst (decodePath (u @ ''%2F'' @ v)) = u @ ''/'' @ fst (decodePath v)) \<and>
   \<not> Contains (fst (decodePath p)) ''%2F''"
proof -
  have total: "snd (decodePath p) = None"
    by (simp add: decodePath_def)
  have same: "\<not> Contains p ''%2F'' \<longrightarrow> fst (decodePath p) = p"
    by (simp add: decodePath_def ReplaceAll_no_occurrence)
  have first: "\<not> Contains u ''%2F'' \<longrightarrow>
      fst (decodePath (u @ ''%2F'' @ v)) = u @ ''/'' @ fst (decodePath v)"
    unfolding decodePath_def Let_def fst_conv
    using ReplaceAll_2F_first [of u v] by blast
  have none_left: "\<not> Contains (fst (decodePath p)) ''%2F''"
    unfolding decodePath_def Let_def fst_conv
    by (rule ReplaceAll_2F_none_left) (rule refl)+
  from total same first none_left show ?thesis by blast
qed

theorem C7_decodePath_total_witness:
  "decodePath ''%2Fv1%2Fgroup'' = (''/v1/group'', None) \<and>
   decodePath ''a%20b%2f'' = (''a%20b%2f'', None) \<and>
   fst (decodePath (''api%2'' @ ''%2F'' @ ''v1%2F'')) = ''api%2'' @ ''/'' @ fst (decodePath ''v1%2F'')"
proof -
  have h1: "\<not> Contains ''a%20b%2f'' ''%2F''"
    by (simp add: HasPrefix_def)
  have h2: "\<not> Contains ''api%2'' ''%2F''"
    by (simp add: HasPrefix_def)
  have e: "decodePath ''%2Fv1%2Fgroup'' = (''/v1/group'', None)"
    by (simp add: decodePath_def HasPrefix_def)
  from C7_decodePath_total [of "''a%20b%2f''"] h1
  have a: "decodePath ''a%20b%2f'' = (''a%20b%2f'', None)"
    by (metis prod.collapse)
  from C7_decodePath_total [of _ "''api%2''" "''v1%2F''"] h2
  have b: "fst (decodePath (''api%2'' @ ''%2F'' @ ''v1%2F'')) = ''api%2'' @ ''/'' @ fst (decodePath ''v1%2F'')"
    by blast
  from e a b show ?thesis by blast
qed

text \<open>
  C8. On a loaded document, in whatever order the keys are visited, the key catalog
  answers with a list, without repetitions, of exactly the root keys whose image under
  \<^verbatim>\<open>strings.ToLower\<close> contains the image of the parameter \<^verbatim>\<open>q\<close>; the filters \<^verbatim>\<open>V1\<close> and
  \<^verbatim>\<open>v1\<close> give the same set of keys, also when the two calls visit the keys in different
  orders. Two facts of \<^verbatim>\<open>strings.ToLower\<close> are used: the empty string stays empty (so an
  empty \<^verbatim>\<open>q\<close> keeps every key), and \<^verbatim>\<open>V1\<close> and \<^verbatim>\<open>v1\<close> have the same image.
\<close>

theorem C8_key_catalog_filter:
  assumes "neuvectorData \<noteq> []"
    and "isRangeOrder neuvectorData rangeKeys"
    and "isRangeOrder neuvectorData rangeKeys'"
    and "ToLower [] = []"
    and "ToLower ''V1'' = ToLower ''v1''"
  shows "(\<exists>ks. getKeysHandler ToLower neuvectorData rangeKeys urlQuery = Encode (JArr (map JStr ks)) \<and>
            distinct ks \<and>
            set ks = {k. k \<in> fst ` set neuvectorData \<and>
                        Contains (ToLower k) (ToLower (Get urlQuery ''q''))}) \<and>
         (\<exists>ks ks'.
            getKeysHandler ToLower neuvectorData rangeKeys [(''q'', ''V1'')] = Encode (JArr (map JStr ks)) \<and>
            getKeysHandler ToLower neuvectorData rangeKeys' [(''q'', ''v1'')] = Encode (JArr (map JStr ks')) \<and>
            set ks = set ks')"
proof (intro conjI)
  let ?P = "\<lambda>f key. Contains (ToLower key) (ToLower f)"
  note resp = getKeysHandler_filter [where ToLower = ToLower, OF assms(1) assms(4)]
  show "\<exists>ks. getKeysHandler ToLower neuvectorData rangeKeys urlQuery = Encode (JArr (map JStr ks)) \<and>
            distinct ks \<and>
            set ks = {k. k \<in> fst ` set neuvectorData \<and>
                        Contains (ToLower k) (ToLower (Get urlQuery ''q''))}"
  proof (intro exI conjI)
    show "getKeysHandler ToLower neuvectorData rangeKeys urlQuery
            = Encode (JArr (map JStr (filter (?P (Get urlQuery ''q'')) rangeKeys)))"
      by (rule resp)
    show "distinct (filter (?P (Get urlQuery ''q'')) rangeKeys)"
      using isRangeOrder_filter [OF assms(2)] by blast
    show "set (filter (?P (Get urlQuery ''q'')) rangeKeys)
            = {k. k \<in> fst ` set neuvectorData \<and> Contains (ToLower k) (ToLower (Get urlQuery ''q''))}"
      using isRangeOrder_filter [OF assms(2), of "?P (Get urlQuery ''q'')"] by blast
  qed
  have q1: "Get [(''q'', ''V1'')] ''q'' = ''V1''" and q2: "Get [(''q'', ''v1'')] ''q'' = ''v1''"
    by (simp_all add: Get_def)
  show "\<exists>ks ks'.
            getKeysHandler ToLower neuvectorData rangeKeys [(''q'', ''V1'')] = Encode (JArr (map JStr ks)) \<and>
            getKeysHandler ToLower neuvectorData rangeKeys' [(''q'', ''v1'')] = Encode (JArr (map JStr ks')) \<and>
            set ks = set ks'"
  proof (intro exI conjI)
    show "getKeysHandler ToLower neuvectorData rangeKeys [(''q'', ''V1'')]
            = Encode (JArr (map JStr (filter (?P ''V1'') rangeKeys)))"
      using resp [of rangeKeys "[(''q'', ''V1'')]"] unfolding q1 .
    show "getKeysHandler ToLower neuvectorData rangeKeys' [(''q'', ''v1'')]
            = Encode (JArr (map JStr (filter (?P ''v1'') rangeKeys')))"
      using resp [of rangeKeys' "[(''q'', ''v1'')]"] unfolding q2 .
    have "set (filter (?P ''V1'') rangeKeys) = {k. k \<in> fst ` set neuvectorData \<and> ?P ''V1'' k}"
      using isRangeOrder_filter [OF assms(2), of "?P ''V1''"] by blast
    moreover have "set (filter (?P ''v1'') rangeKeys') = {k. k \<in> fst ` set neuvectorData \<and> ?P ''v1'' k}"
      using isRangeOrder_filter [OF assms(3), of "?P ''v1''"] by blast
    ultimately show "set (filter (?P ''V1'') rangeKeys) = set (filter (?P ''v1'') rangeKeys')"
      unfolding assms(5) by (rule trans [OF _ sym])
  qed
qed

theorem C8_key_catalog_filter_witness:
  "getKeysHandler asciiToLower
     [(''/v1/group'', JNull), (''/V1/Host'', JNull), (''version'', JStr ''5.3'')]
     [''version'', ''/v1/group'', ''/V1/Host''] [(''q'', ''V1'')]
     = Encode (JArr [JStr ''/v1/group'', JStr ''/V1/Host'']) \<and>
   getKeysHandler asciiToLower
     [(''/v1/group'', JNull), (''/V1/Host'', JNull), (''version'', JStr ''5.3'')]
     [''/V1/Host'', ''version'', ''/v1/group''] [(''q'', ''v1'')]
     = Encode (JArr [JStr ''/V1/Host'', JStr ''/v1/group'']) \<and>
   getKeysHandler asciiToLower
     [(''/v1/group'', JNull), (''/V1/Host'', JNull), (''version'', JStr ''5.3'')]
     [''version'', ''/v1/group'', ''/V1/Host''] []
     = Encode (JArr [JStr ''version'', JStr ''/v1/group'', JStr ''/V1/Host'']) \<and>
   (\<exists>ks ks'.
      getKeysHandler asciiToLower
        [(''/v1/group'', JNull), (''/V1/Host'', JNull), (''version'', JStr ''5.3'')]
        [''version'', ''/v1/group'', ''/V1/Host''] [(''q'', ''V1'')] = Encode (JArr (map JStr ks)) \<and>
      getKeysHandler asciiToLower
        [(''/v1/group'', JNull), (''/V1/Host'', JNull), (''version'', JStr ''5.3'')]
        [''/V1/Host'', ''version'', ''/v1/group''] [(''q'', ''v1'')] = Encode (JArr (map JStr ks')) \<and>
      set ks = set ks')"
proof -
  let ?doc = "[(''/v1/group'', JNull), (''/V1/Host'', JNull), (''version'', JStr ''5.3'')]"
  let ?rk = "[''version'', ''/v1/group'', ''/V1/Host'']"
  let ?rk' = "[''/V1/Host'', ''version'', ''/v1/group'']"
  have h1: "?doc \<noteq> []"
    by simp
  have h2: "isRangeOrder ?doc ?rk"
    by (auto simp: isRangeOrder_def)
  have h3: "isRangeOrder ?doc ?rk'"
    by (auto simp: isRangeOrder_def)
  have h4: "asciiToLower [] = []"
    by simp
  have h5: "asciiToLower ''V1'' = asciiToLower ''v1''"
    by (simp add: string_defs)
  have e1: "getKeysHandler asciiToLower ?doc ?rk [(''q'', ''V1'')] = Encode (JArr [JStr ''/v1/group'', JStr ''/V1/Host''])"
    by (simp add: getKeysHandler_def field_defs string_defs)
  have e2: "getKeysHandler asciiToLower ?doc ?rk' [(''q'', ''v1'')] = Encode (JArr [JStr ''/V1/Host'', JStr ''/v1/group''])"
    by (simp add: getKeysHandler_def field_defs string_defs)
  have e3: "getKeysHandler asciiToLower ?doc ?rk [] = Encode (JArr [JStr ''version'', JStr ''/v1/group'', JStr ''/V1/Host''])"
    by (simp add: getKeysHandler_def field_defs string_defs)
  from C8_key_catalog_filter [where ToLower = asciiToLower, OF h1 h2 h3 h4 h5]
  have s: "\<exists>ks ks'.
      getKeysHandler asciiToLower ?doc ?rk [(''q'', ''V1'')] = Encode (JArr (map JStr ks)) \<and>
      getKeysHandler asciiToLower ?doc ?rk' [(''q'', ''v1'')] = Encode (JArr (map JStr ks')) \<and>
      set ks = set ks'"
    by blast
  from e1 e2 e3 s show ?thesis by blast
qed

text \<open>
  C9. Under the host key there is no exclusion by underscore: every map element of
  \<^verbatim>\<open>hosts\<close>, whatever its name, has its record in the answer when the parameter
  \<^verbatim>\<open>domain\<close> is empty or the image of the name under \<^verbatim>\<open>strings.ToLower\<close> contains the
  image of the parameter, whatever \<^verbatim>\<open>strings.ToLower\<close> does. The example that follows is a
  host named \<^verbatim>\<open>_Node-1\<close>, which the domain key drops from the same array.
\<close>

theorem C9_host_underscore_not_excluded:
  assumes "map_of valMap ''hosts'' = Some (JArr hosts)"
    and "JObj hostMap \<in> set hosts"
    and "Get q ''domain'' = [] \<or>
         Contains (ToLower (strField hostMap ''name'')) (ToLower (Get q ''domain''))"
  shows "\<exists>out. project ToLower ''/v1/host'' (JObj valMap) q = Encode (JArr out) \<and>
               JObj (newHost hostMap) \<in> set out"
proof -
  have "\<not> hostSkipped ToLower (Get q ''domain'') hostMap"
    using assms(3) by (auto simp: hostSkipped_def)
  with in_objects [OF assms(2)]
  have "JObj (newHost hostMap) \<in> set (map (\<lambda>h. JObj (newHost h))
          (filter (\<lambda>h. \<not> hostSkipped ToLower (Get q ''domain'') h) (objects hosts)))"
    by auto
  then show ?thesis
    unfolding project_host_shaped [where ToLower = ToLower, OF assms(1)] by blast
qed

theorem C9_host_underscore_not_excluded_witness:
  "HasPrefix (strField [(''name'', JStr ''_Node-1''), (''state'', JStr ''up'')] ''name'') ''_'' \<and>
   project asciiToLower ''/v1/host''
     (JObj [(''hosts'', JArr [JObj [(''name'', JStr ''_Node-1''), (''state'', JStr ''up'')],
                             JObj [(''name'', JStr ''worker'')]])])
     [(''domain'', ''NODE'')]
   = Encode (JArr [JObj [(''name'', JStr ''_Node-1''), (''state'', JStr ''up''), (''os'', JNull),
                         (''platform'', JNull), (''containers'', JNull)]]) \<and>
   JObj (newHost [(''name'', JStr ''_Node-1''), (''state'', JStr ''up'')])
     \<in> set [JObj [(''name'', JStr ''_Node-1''), (''state'', JStr ''up''), (''os'', JNull),
                         (''platform'', JNull), (''containers'', JNull)]] \<and>
   project asciiToLower ''/v1/domain''
     (JObj [(''domains'', JArr [JObj [(''name'', JStr ''_Node-1''), (''state'', JStr ''up'')],
                               JObj [(''name'', JStr ''worker'')]])])
     [(''domain'', ''NODE'')]
   = Encode (JArr [])"
proof -
  let ?h = "[(''name'', JStr ''_Node-1''), (''state'', JStr ''up'')]"
  let ?hosts = "[JObj ?h, JObj [(''name'', JStr ''worker'')]]"
  let ?valMap = "[(''hosts'', JArr ?hosts)]"
  let ?q = "[(''domain'', ''NODE'')]"
  let ?out = "[JObj [(''name'', JStr ''_Node-1''), (''state'', JStr ''up''), (''os'', JNull),
                         (''platform'', JNull), (''containers'', JNull)]]"
  have u: "HasPrefix (strField ?h ''name'') ''_''"
    by (simp add: field_defs string_defs)
  have h1: "map_of ?valMap ''hosts'' = Some (JArr ?hosts)"
    by simp
  have h2: "JObj ?h \<in> set ?hosts"
    by simp
  have h3: "Get ?q ''domain'' = [] \<or> Contains (asciiToLower (strField ?h ''name'')) (asciiToLower (Get ?q ''domain''))"
    by (simp add: field_defs string_defs)
  have e: "project asciiToLower ''/v1/host'' (JObj ?valMap) ?q = Encode (JArr ?out)"
    by (simp add: handler_defs field_defs string_defs)
  have d: "project asciiToLower ''/v1/domain'' (JObj [(''domains'', JArr ?hosts)]) ?q = Encode (JArr [])"
    by (simp add: handler_defs field_defs string_defs)
  from C9_host_underscore_not_excluded [OF h1 h2 h3] e
  have "JObj (newHost ?h) \<in> set ?out"
    by auto
  with u e d show ?thesis by blast
qed

text \<open>
  C10. Under the group key with a value of the expected shape, one element of \<^verbatim>\<open>groups\<close>
  that is not a map makes the handler panic, so that nothing is answered; under the
  platform, domain and host keys the answer is computed from the map elements alone,
  the others being passed over.
\<close>

theorem C10_group_element_assertion_panics:
  "(\<forall>valMap groups q x.
      map_of valMap ''groups'' = Some (JArr groups) \<and> x \<in> set groups \<and> asMap x = None
      \<longrightarrow> project ToLower ''/v1/group'' (JObj valMap) q = Panic) \<and>
   (\<forall>valMap platforms q.
      map_of valMap ''platforms'' = Some (JArr platforms)
      \<longrightarrow> project ToLower ''/v1/scan/platform'' (JObj valMap) q
            = Encode (JArr (map (\<lambda>p. JObj (newPlatform ToLower p)) (objects platforms)))) \<and>
   (\<forall>valMap domains q.
      map_of valMap ''domains'' = Some (JArr domains)
      \<longrightarrow> project ToLower ''/v1/domain'' (JObj valMap) q
            = Encode (JArr (map (\<lambda>d. JObj (newDomain d))
                (filter (\<lambda>d. \<not> domainSkipped ToLower (Get q ''domain'') d) (objects domains))))) \<and>
   (\<forall>valMap hosts q.
      map_of valMap ''hosts'' = Some (JArr hosts)
      \<longrightarrow> project ToLower ''/v1/host'' (JObj valMap) q
            = Encode (JArr (map (\<lambda>h. JObj (newHost h))
                (filter (\<lambda>h. \<not> hostSkipped ToLower (Get q ''domain'') h) (objects hosts)))))"
proof -
  have g: "project ToLower ''/v1/group'' (JObj valMap) q = Panic"
    if "map_of valMap ''groups'' = Some (JArr groups)" and "x \<in> set groups" and "asMap x = None"
    for valMap groups q x
  proof -
    from that(2,3) have "\<not> list_all (\<lambda>g. asMap g \<noteq> None) groups"
      by (auto simp: list_all_iff)
    then show ?thesis
      by (simp add: project_group_shaped [where ToLower = ToLower, OF that(1)])
  qed
  from g project_platform_shaped project_domain_shaped project_host_shaped
  show ?thesis by blast
qed

theorem C10_group_element_assertion_panics_witness:
  "getDataHandler asciiToLower [(''/v1/group'', JObj [(''groups'', JArr [JObj [(''name'', JStr ''a'')], JStr ''b''])])]
     ''/api/data/%2Fv1%2Fgroup'' [] = Panic \<and>
   getDataHandler asciiToLower [(''/v1/scan/platform'', JObj [(''platforms'', JArr [JObj [(''platform'', JStr ''a'')], JStr ''b''])])]
     ''/api/data/%2Fv1%2Fscan%2Fplatform'' []
     = Encode (JArr [JObj [(''platform'', JStr ''a''), (''status'', JNull), (''version'', JStr [])]]) \<and>
   getDataHandler asciiToLower [(''/v1/domain'', JObj [(''domains'', JArr [JObj [(''name'', JStr ''a'')], JStr ''b''])])]
     ''/api/data/%2Fv1%2Fdomain'' []
     = Encode (JArr [JObj [(''name'', JStr ''a''), (''workloads'', JNull), (''running_workloads'', JNull),
                           (''running_pods'', JNull), (''services'', JNull)]]) \<and>
   getDataHandler asciiToLower [(''/v1/host'', JObj [(''hosts'', JArr [JObj [(''name'', JStr ''a'')], JStr ''b''])])]
     ''/api/data/%2Fv1%2Fhost'' []
     = Encode (JArr [JObj [(''name'', JStr ''a''), (''state'', JNull), (''os'', JNull),
                           (''platform'', JNull), (''containers'', JNull)]])"
proof -
  let ?groups = "[JObj [(''name'', JStr ''a'')], JStr ''b'']"
  let ?valMap = "[(''groups'', JArr ?groups)]"
  have h1: "map_of ?valMap ''groups'' = Some (JArr ?groups)"
    by simp
  have h2: "JStr ''b'' \<in> set ?groups"
    by simp
  have h3: "asMap (JStr ''b'') = None"
    by simp
  from C10_group_element_assertion_panics [where ToLower = asciiToLower] h1 h2 h3
  have p: "project asciiToLower ''/v1/group'' (JObj ?valMap) [] = Panic"
    by blast
  have k: "decodePath (TrimPrefix ''/api/data/%2Fv1%2Fgroup'' ''/api/data/'') = (''/v1/group'', None)"
    by (simp add: decodePath_def string_defs)
  have a: "getDataHandler asciiToLower [(''/v1/group'', JObj ?valMap)] ''/api/data/%2Fv1%2Fgroup'' [] = Panic"
    unfolding getDataHandler_def k using p by simp
  have b: "getDataHandler asciiToLower [(''/v1/scan/platform'', JObj [(''platforms'', JArr [JObj [(''platform'', JStr ''a'')], JStr ''b''])])]
     ''/api/data/%2Fv1%2Fscan%2Fplatform'' []
     = Encode (JArr [JObj [(''platform'', JStr ''a''), (''status'', JNull), (''version'', JStr [])]])"
    by (simp add: handler_defs field_defs string_defs)
  have c: "getDataHandler asciiToLower [(''/v1/domain'', JObj [(''domains'', JArr [JObj [(''name'', JStr ''a'')], JStr ''b''])])]
     ''/api/data/%2Fv1%2Fdomain'' []
     = Encode (JArr [JObj [(''name'', JStr ''a''), (''workloads'', JNull), (''running_workloads'', JNull),
                           (''running_pods'', JNull), (''services'', JNull)]])"
    by (simp add: handler_defs field_defs string_defs)
  have d: "getDataHandler asciiToLower [(''/v1/host'', JObj [(''hosts'', JArr [JObj [(''name'', JStr ''a'')], JStr ''b''])])]
     ''/api/data/%2Fv1%2Fhost'' []
     = Encode (JArr [JObj [(''name'', JStr ''a''), (''state'', JNull), (''os'', JNull),
                           (''platform'', JNull), (''containers'', JNull)]])"
    by (simp add: handler_defs field_defs string_defs)
  from a b c d show ?thesis by blast
qed

end
